theory Spec2Isabelle
  imports Main
begin

section \<open>Data model\<close>

text \<open>
  The notebook \<^verbatim>\<open>get_pancancer_clinical_and_mutation_data.ipynb\<close> fetches two files,
  loads three tables with pandas, joins them twice and writes the result. A table cell is
  a text field, a number (what the reader infers for a numeric column, and what
  \<^verbatim>\<open>np.arange\<close> produces) or the missing value. A character of a \<open>string\<close> stands for
  one character of the Python \<^verbatim>\<open>str\<close>.
\<close>

datatype cell = Str string | Num int | NaN

text \<open>A DataFrame: the column labels in order, and the rows in order.\<close>

record frame =
  columns :: "string list"
  rows :: "cell list list"

text \<open>
  A delimited file as the reader tokenises it: the fields of the header line and the
  fields of every following line. Lines need not have the width of the header.
\<close>

record csv_file =
  header :: "string list"
  lines :: "cell list list"

datatype error = ValueError | TypeError | KeyError | FileNotFoundError | URLError | ParserError

definition then_do :: "error + 'a \<Rightarrow> ('a \<Rightarrow> error + 'b) \<Rightarrow> error + 'b" where
  "then_do m f = (case m of Inl e \<Rightarrow> Inl e | Inr x \<Rightarrow> f x)"

section \<open>Patient key derivation\<close>

text \<open>
  Python's \<^verbatim>\<open>s[start:stop]\<close> with step 1: a negative bound counts from the end, and
  both bounds are clipped to \<open>0..len(s)\<close>; an empty range gives the empty sequence.
\<close>

definition slice_bound :: "int \<Rightarrow> int \<Rightarrow> int" where
  "slice_bound n i = (if i < 0 then max 0 (i + n) else min i n)"

definition py_slice :: "'a list \<Rightarrow> int \<Rightarrow> int \<Rightarrow> 'a list" where
  "py_slice xs start stop =
     (let n = int (length xs);
          lo = slice_bound n start;
          hi = slice_bound n stop
      in take (nat (hi - lo)) (drop (nat lo) xs))"

text \<open>
  \<^verbatim>\<open>def parsePatientBarcode(tumor_sample_barcode): return tumor_sample_barcode[0:12]\<close>
  A number or the missing value (a float) is not subscriptable: TypeError.
\<close>

fun parsePatientBarcode :: "cell \<Rightarrow> error + cell" where
  "parsePatientBarcode (Str s) = Inr (Str (py_slice s 0 12))"
| "parsePatientBarcode (Num n) = Inl TypeError"
| "parsePatientBarcode NaN = Inl TypeError"

section \<open>Frame operations\<close>

fun index_of :: "'a \<Rightarrow> 'a list \<Rightarrow> nat option" where
  "index_of x [] = None"
| "index_of x (y # ys) = (if x = y then Some 0 else map_option Suc (index_of x ys))"

text \<open>A field missing at the end of a line reads as the missing value.\<close>

definition cell_at :: "cell list \<Rightarrow> nat \<Rightarrow> cell" where
  "cell_at r i = (if i < length r then r ! i else NaN)"

definition arange :: "nat \<Rightarrow> cell list" where
  "arange n = map (\<lambda>i. Num (int i)) [0..<n]"

text \<open>
  \<^verbatim>\<open>pd.read_csv(..., usecols=names)\<close>: ValueError when a requested name is not in the
  header. Otherwise the frame keeps the requested columns in file order. A repeated header
  name is renamed by the reader (\<^verbatim>\<open>X\<close>, \<^verbatim>\<open>X.1\<close>, ...), so only its first occurrence can
  carry a requested name (none of the names requested here contains a dot). With
  \<^verbatim>\<open>usecols\<close> a short line is padded with missing values and the surplus fields of a long
  line are ignored.
\<close>

definition usecols_positions :: "string list \<Rightarrow> string list \<Rightarrow> nat list" where
  "usecols_positions usecols hdr =
     filter (\<lambda>i. hdr ! i \<in> set usecols \<and> hdr ! i \<notin> set (take i hdr)) [0..<length hdr]"

definition read_csv_usecols :: "string list \<Rightarrow> csv_file \<Rightarrow> error + frame" where
  "read_csv_usecols usecols f =
     (if \<exists>c \<in> set usecols. c \<notin> set (header f) then Inl ValueError
      else let ps = usecols_positions usecols (header f)
           in Inr \<lparr>columns = map (\<lambda>i. header f ! i) ps,
                   rows = map (\<lambda>l. map (cell_at l) ps) (lines f)\<rparr>)"

text \<open>
  \<^verbatim>\<open>pd.read_csv(name, sep='\t')\<close> without \<^verbatim>\<open>usecols\<close>: the first line is the header, a
  short line is padded, a line with more fields than the header is a ParserError. (The
  reader's inference of an index column from over-long lines is not modelled.)
\<close>

definition read_csv :: "csv_file \<Rightarrow> error + frame" where
  "read_csv f =
     (if \<exists>l \<in> set (lines f). length (header f) < length l then Inl ParserError
      else Inr \<lparr>columns = header f,
                rows = map (\<lambda>l. map (cell_at l) [0..<length (header f)]) (lines f)\<rparr>)"

text \<open>\<^verbatim>\<open>df.columns = names\<close>: ValueError unless there is one name per column.\<close>

definition set_columns :: "string list \<Rightarrow> frame \<Rightarrow> error + frame" where
  "set_columns names df =
     (if length names = length (columns df) then Inr (df\<lparr>columns := names\<rparr>)
      else Inl ValueError)"

text \<open>
  \<^verbatim>\<open>df[name] = values\<close>: ValueError unless there is one value per row; an existing column
  is overwritten in place, a new one is appended.
\<close>

definition assign_column :: "string \<Rightarrow> cell list \<Rightarrow> frame \<Rightarrow> error + frame" where
  "assign_column name vals df =
     (if length vals \<noteq> length (rows df) then Inl ValueError
      else case index_of name (columns df) of
             Some i \<Rightarrow> Inr (df\<lparr>rows := map (\<lambda>(r, v). r[i := v]) (zip (rows df) vals)\<rparr>)
           | None \<Rightarrow> Inr \<lparr>columns = columns df @ [name],
                          rows = map (\<lambda>(r, v). r @ [v]) (zip (rows df) vals)\<rparr>)"

text \<open>\<^verbatim>\<open>df[name]\<close>: KeyError when there is no such column.\<close>

definition get_column :: "string \<Rightarrow> frame \<Rightarrow> error + cell list" where
  "get_column name df =
     (case index_of name (columns df) of
        None \<Rightarrow> Inl KeyError
      | Some i \<Rightarrow> Inr (map (\<lambda>r. cell_at r i) (rows df)))"

text \<open>\<^verbatim>\<open>series.apply(f)\<close>: \<open>f\<close> on every value in order; the first exception ends it.\<close>

fun apply_each :: "(cell \<Rightarrow> error + cell) \<Rightarrow> cell list \<Rightarrow> error + cell list" where
  "apply_each f [] = Inr []"
| "apply_each f (v # vs) =
     (case f v of
        Inl e \<Rightarrow> Inl e
      | Inr y \<Rightarrow> (case apply_each f vs of Inl e \<Rightarrow> Inl e | Inr ys \<Rightarrow> Inr (y # ys)))"

definition remove_nth :: "nat \<Rightarrow> 'a list \<Rightarrow> 'a list" where
  "remove_nth i xs = take i xs @ drop (Suc i) xs"

text \<open>\<^verbatim>\<open>df.drop([name], axis=1)\<close>: KeyError when there is no such column.\<close>

definition drop_column :: "string \<Rightarrow> frame \<Rightarrow> error + frame" where
  "drop_column name df =
     (case index_of name (columns df) of
        None \<Rightarrow> Inl KeyError
      | Some i \<Rightarrow> Inr \<lparr>columns = remove_nth i (columns df),
                       rows = map (remove_nth i) (rows df)\<rparr>)"

subsection \<open>Inner join\<close>

text \<open>
  \<^verbatim>\<open>left.merge(right, left_on=a, right_on=b)\<close> is an inner join (\<^verbatim>\<open>how='inner'\<close> is the
  default). The join computes the pairs of row positions whose keys are equal and takes the
  rows at these positions. Keys are compared as values; two missing keys are equal, as in
  pandas. The pairs are listed in the order of the left rows, and for one left row in the
  order of the right rows (the documented order; the statements below that concern
  duplicate keys are about the set of pairs and do not depend on it). The check that
  pandas makes on the dtypes of the two key columns is not modelled.
\<close>

definition join_indexers :: "cell list \<Rightarrow> cell list \<Rightarrow> (nat \<times> nat) list" where
  "join_indexers lk rk =
     concat (map (\<lambda>i. map (\<lambda>j. (i, j)) (filter (\<lambda>j. rk ! j = lk ! i) [0..<length rk]))
                 [0..<length lk])"

text \<open>
  The columns of the result: those of the left frame, then those of the right frame; when
  both keys have the same name the right key column is left out. A name that is on both
  sides and is not that shared key gets the suffix \<^verbatim>\<open>_x\<close> on the left and \<^verbatim>\<open>_y\<close> on the
  right.
\<close>

definition right_positions :: "string \<Rightarrow> string \<Rightarrow> string list \<Rightarrow> nat list" where
  "right_positions left_on right_on rcols =
     filter (\<lambda>j. \<not> (left_on = right_on \<and> rcols ! j = right_on)) [0..<length rcols]"

definition merge_columns :: "string \<Rightarrow> string \<Rightarrow> string list \<Rightarrow> string list \<Rightarrow> string list" where
  "merge_columns left_on right_on lcols rcols =
     (let shared = (\<lambda>c. c \<in> set lcols \<and> c \<in> set rcols \<and> \<not> (left_on = right_on \<and> c = right_on))
      in map (\<lambda>c. if shared c then c @ ''_x'' else c) lcols @
         map (\<lambda>j. if shared (rcols ! j) then rcols ! j @ ''_y'' else rcols ! j)
             (right_positions left_on right_on rcols))"

definition merge_row :: "nat list \<Rightarrow> cell list \<Rightarrow> cell list \<Rightarrow> cell list" where
  "merge_row ps l r = l @ map (cell_at r) ps"

definition merge :: "frame \<Rightarrow> frame \<Rightarrow> string \<Rightarrow> string \<Rightarrow> error + frame" where
  "merge left right left_on right_on =
     then_do (get_column left_on left) (\<lambda>lk.
     then_do (get_column right_on right) (\<lambda>rk.
       Inr \<lparr>columns = merge_columns left_on right_on (columns left) (columns right),
            rows = map (\<lambda>(i, j). merge_row (right_positions left_on right_on (columns right))
                                           (rows left ! i) (rows right ! j))
                       (join_indexers lk rk)\<rparr>))"

section \<open>The cells of the notebook\<close>

definition mutation_usecols :: "string list" where
  "mutation_usecols =
     [''Tumor_Sample_Barcode'', ''Hugo_Symbol'', ''Variant_Classification'',
      ''Variant_Type'', ''Chromosome'']"

definition clinical_usecols :: "string list" where
  "clinical_usecols =
     [''bcr_patient_barcode'', ''gender'', ''vital_status'', ''days_to_birth'',
      ''days_to_death'', ''age_at_initial_pathologic_diagnosis'', ''pathologic_stage'',
      ''height'', ''weight'']"

text \<open>
  \<^verbatim>\<open>df['row'] = np.arange(len(df))\<close>. The call \<^verbatim>\<open>df.set_index('row')\<close> that follows it
  returns a new frame, which the notebook discards: it changes nothing.
\<close>

definition add_row :: "frame \<Rightarrow> error + frame" where
  "add_row df = assign_column ''row'' (arange (length (rows df))) df"

definition load_mutations :: "csv_file \<Rightarrow> error + frame" where
  "load_mutations f = then_do (read_csv_usecols mutation_usecols f) add_row"

definition load_labels :: "csv_file \<Rightarrow> error + frame" where
  "load_labels f =
     then_do (read_csv f) (\<lambda>labels.
     then_do (set_columns [''cancer_type''] labels) add_row)"

definition load_clinical :: "csv_file \<Rightarrow> error + frame" where
  "load_clinical f = read_csv_usecols clinical_usecols f"

definition positional_join :: "frame \<Rightarrow> frame \<Rightarrow> error + frame" where
  "positional_join mutations labels = merge mutations labels ''row'' ''row''"

text \<open>
  \<^verbatim>\<open>mutations['bcr_patient_barcode'] = mutations['Tumor_Sample_Barcode'].apply(parsePatientBarcode)\<close>
  \<^verbatim>\<open>mutations = mutations.drop(['Tumor_Sample_Barcode'], axis=1)\<close>
\<close>

definition derive_patient_key :: "frame \<Rightarrow> error + frame" where
  "derive_patient_key mutations =
     then_do (get_column ''Tumor_Sample_Barcode'' mutations) (\<lambda>barcodes.
     then_do (apply_each parsePatientBarcode barcodes) (\<lambda>keys.
     then_do (assign_column ''bcr_patient_barcode'' keys mutations)
       (drop_column ''Tumor_Sample_Barcode'')))"

definition key_join :: "frame \<Rightarrow> frame \<Rightarrow> error + frame" where
  "key_join mutations clinical =
     merge mutations clinical ''bcr_patient_barcode'' ''bcr_patient_barcode''"

text \<open>
  The data cells in the order of the notebook, on the three tokenised files. The cells
  that only display or count (\<^verbatim>\<open>head\<close>, \<^verbatim>\<open>display\<close>, \<^verbatim>\<open>print\<close>, the null check and the
  missing-patient count) assign none of \<^verbatim>\<open>mutations\<close>, \<^verbatim>\<open>labels\<close>, \<^verbatim>\<open>clinical\<close>,
  \<^verbatim>\<open>merged\<close> and are left out. One of them matters to a reader of the notebook: the
  missing-patient count reads \<^verbatim>\<open>mutations.bcr_patient_barcode\<close> one cell before the key
  derivation creates that column, so on a fresh kernel that cell raises AttributeError
  and a run of all cells from top to bottom stops there. The cell assigns no frame:
  \<open>build_merged\<close> is the table that the data cells compute when each of them is executed,
  in their order, and it is not a model of such a run of all cells.
\<close>

definition build_merged :: "csv_file \<Rightarrow> csv_file \<Rightarrow> csv_file \<Rightarrow> error + frame" where
  "build_merged mfile lfile cfile =
     then_do (load_mutations mfile) (\<lambda>mutations.
     then_do (load_labels lfile) (\<lambda>labels.
     then_do (positional_join mutations labels) (\<lambda>mutations.
     then_do (load_clinical cfile) (\<lambda>clinical.
     then_do (derive_patient_key mutations) (\<lambda>mutations.
       key_join mutations clinical)))))"

section \<open>Files and the fetch step\<close>

text \<open>
  The working directory maps a file name to the content of the file, kept as the reader
  tokenises it: two files with the same bytes have the same content. \<open>retrieved\<close> lists
  the URLs downloaded so far. A leading \<^verbatim>\<open>./\<close> names the working directory itself.
\<close>

record world =
  files :: "string \<rightharpoonup> csv_file"
  retrieved :: "string list"

function normpath :: "string \<Rightarrow> string" where
  "normpath p = (if take 2 p = ''./'' then normpath (drop 2 p) else p)"
  by pat_completeness auto
termination
proof (relation "measure length")
  show "wf (measure length)" by simp
next
  fix p :: string
  assume "take 2 p = ''./''"
  then have "p \<noteq> []" by auto
  then show "(drop 2 p, p) \<in> measure length" by simp
qed

declare normpath.simps [simp del]

definition isfile :: "world \<Rightarrow> string \<Rightarrow> bool" where
  "isfile w name = (files w (normpath name) \<noteq> None)"

text \<open>
  \<^verbatim>\<open>urllib.request.urlretrieve(url, name)\<close>: the network answers with a content or fails
  (\<open>None\<close>), and the exception is not caught.
\<close>

definition urlretrieve ::
  "(string \<Rightarrow> csv_file option) \<Rightarrow> string \<Rightarrow> string \<Rightarrow> world \<Rightarrow> error + world" where
  "urlretrieve net url name w =
     (case net url of
        None \<Rightarrow> Inl URLError
      | Some c \<Rightarrow> Inr (w\<lparr>files := (files w)(normpath name \<mapsto> c),
                         retrieved := retrieved w @ [url]\<rparr>))"

text \<open>
  \<^verbatim>\<open>if os.path.isfile(filename): print("Skipping download ...")\<close>
  \<^verbatim>\<open>else: urllib.request.urlretrieve(url, target)\<close>
\<close>

definition fetch ::
  "(string \<Rightarrow> csv_file option) \<Rightarrow> string \<Rightarrow> string \<Rightarrow> string \<Rightarrow> world \<Rightarrow> error + world" where
  "fetch net filename url target w =
     (if isfile w filename then Inr w else urlretrieve net url target w)"

definition fetch_mutations :: "(string \<Rightarrow> csv_file option) \<Rightarrow> world \<Rightarrow> error + world" where
  "fetch_mutations net w =
     fetch net ''pancancer_mutations.maf.gz''
       ''http://api.gdc.cancer.gov/data/1c8cfe5f-e52d-41ba-94da-f15ea1337efc''
       ''./pancancer_mutations.maf.gz'' w"

definition fetch_clinical :: "(string \<Rightarrow> csv_file option) \<Rightarrow> world \<Rightarrow> error + world" where
  "fetch_clinical net w =
     fetch net ''pancancer_clinical.txt''
       ''http://api.gdc.cancer.gov/data/0fc78496-818b-4896-bd83-52db1f533c5c''
       ''./pancancer_clinical.txt'' w"

definition fetch_step :: "(string \<Rightarrow> csv_file option) \<Rightarrow> world \<Rightarrow> error + world" where
  "fetch_step net w = then_do (fetch_mutations net w) (fetch_clinical net)"

section \<open>Notions used in the statements\<close>

text \<open>The value a row has under a column name, if the frame or file has that column.\<close>

definition value_at :: "string list \<Rightarrow> cell list \<Rightarrow> string \<Rightarrow> cell option" where
  "value_at cols r c = map_option (cell_at r) (index_of c cols)"

text \<open>The header positions that the mutation loader keeps.\<close>

definition mutation_positions :: "csv_file \<Rightarrow> nat list" where
  "mutation_positions f = usecols_positions mutation_usecols (header f)"

text \<open>
  The duplication factor of a key is the number of rows that carry it; the maximum is
  taken over the keys of the table, and is 0 for an empty table.
\<close>

definition max_duplication :: "'a list \<Rightarrow> nat" where
  "max_duplication ks = foldr max (map (count_list ks) ks) 0"

section \<open>Example inputs\<close>

text \<open>
  Three mutation lines of three patients, their labels, and a clinical table that has the
  first and the third patient and a patient without mutations.
\<close>

definition example_mutations :: csv_file where
  "example_mutations =
     \<lparr>header = [''Hugo_Symbol'', ''Chromosome'', ''Variant_Classification'', ''Variant_Type'',
                ''Tumor_Sample_Barcode''],
      lines = [[Str ''TACC2'', Str ''10'', Str ''Missense_Mutation'', Str ''SNP'',
                Str ''TCGA-02-0003-01A-01D-1490-08''],
               [Str ''PANX3'', Str ''11'', Str ''Silent'', Str ''SNP'',
                Str ''TCGA-02-0033-01A-01D-1490-08''],
               [Str ''JAKMIP3'', Str ''10'', Str ''Silent'', Str ''SNP'',
                Str ''TCGA-02-0047-01A-01D-1490-08'']]\<rparr>"

definition example_labels :: csv_file where
  "example_labels =
     \<lparr>header = [''label''], lines = [[Str ''GBM''], [Str ''LUAD''], [Str ''BRCA'']]\<rparr>"


definition example_clinical :: csv_file where
  "example_clinical =
     \<lparr>header = [''bcr_patient_barcode'', ''gender'', ''vital_status'', ''days_to_birth'',
                ''days_to_death'', ''age_at_initial_pathologic_diagnosis'', ''pathologic_stage'',
                ''height'', ''weight''],
      lines = [[Str ''TCGA-02-0003'', Str ''MALE'', Str ''Dead'', Num (- 18341), Num 144,
                Num 50, NaN, NaN, NaN],
               [Str ''TCGA-02-0047'', Str ''MALE'', Str ''Dead'', Num (- 28759), Num 448,
                Num 78, NaN, NaN, NaN],
               [Str ''TCGA-02-0099'', Str ''FEMALE'', Str ''Alive'', Num (- 16521), NaN,
                Num 45, NaN, NaN, NaN]]\<rparr>"



text \<open>
  Three mutation lines of one patient, and a clinical table with two lines for that
  patient.
\<close>

definition repeated_mutations :: csv_file where
  "repeated_mutations =
     \<lparr>header = [''Hugo_Symbol'', ''Chromosome'', ''Variant_Classification'', ''Variant_Type'',
                ''Tumor_Sample_Barcode''],
      lines = [[Str ''TACC2'', Str ''10'', Str ''Missense_Mutation'', Str ''SNP'',
                Str ''TCGA-02-0003-01A-01D-1490-08''],
               [Str ''PANX3'', Str ''11'', Str ''Silent'', Str ''SNP'',
                Str ''TCGA-02-0003-01A-01D-1490-08''],
               [Str ''JAKMIP3'', Str ''10'', Str ''Silent'', Str ''SNP'',
                Str ''TCGA-02-0003-01A-01D-1490-08'']]\<rparr>"

definition repeated_labels :: csv_file where
  "repeated_labels =
     \<lparr>header = [''label''], lines = [[Str ''GBM''], [Str ''GBM''], [Str ''GBM'']]\<rparr>"

definition repeated_clinical :: csv_file where
  "repeated_clinical =
     \<lparr>header = [''bcr_patient_barcode'', ''gender'', ''vital_status'', ''days_to_birth'',
                ''days_to_death'', ''age_at_initial_pathologic_diagnosis'', ''pathologic_stage'',
                ''height'', ''weight''],
      lines = [[Str ''TCGA-02-0003'', Str ''MALE'', Str ''Dead'', Num (- 18341), Num 144,
                Num 50, Str ''Stage I'', NaN, NaN],
               [Str ''TCGA-02-0003'', Str ''MALE'', Str ''Dead'', Num (- 18341), Num 144,
                Num 50, Str ''Stage II'', NaN, NaN]]\<rparr>"

text \<open>The frames that the cells compute from the first example.\<close>

definition example_mutation_frame :: frame where
  "example_mutation_frame =
     \<lparr>columns = [''Hugo_Symbol'', ''Chromosome'', ''Variant_Classification'', ''Variant_Type'',
                 ''Tumor_Sample_Barcode'', ''row''],
      rows = [[Str ''TACC2'', Str ''10'', Str ''Missense_Mutation'', Str ''SNP'',
               Str ''TCGA-02-0003-01A-01D-1490-08'', Num 0],
              [Str ''PANX3'', Str ''11'', Str ''Silent'', Str ''SNP'',
               Str ''TCGA-02-0033-01A-01D-1490-08'', Num 1],
              [Str ''JAKMIP3'', Str ''10'', Str ''Silent'', Str ''SNP'',
               Str ''TCGA-02-0047-01A-01D-1490-08'', Num 2]]\<rparr>"

definition example_label_frame :: frame where
  "example_label_frame =
     \<lparr>columns = [''cancer_type'', ''row''],
      rows = [[Str ''GBM'', Num 0], [Str ''LUAD'', Num 1], [Str ''BRCA'', Num 2]]\<rparr>"


definition example_keyed_frame :: frame where
  "example_keyed_frame =
     \<lparr>columns = [''Hugo_Symbol'', ''Chromosome'', ''Variant_Classification'', ''Variant_Type'',
                 ''row'', ''cancer_type'', ''bcr_patient_barcode''],
      rows = [[Str ''TACC2'', Str ''10'', Str ''Missense_Mutation'', Str ''SNP'', Num 0,
               Str ''GBM'', Str ''TCGA-02-0003''],
              [Str ''PANX3'', Str ''11'', Str ''Silent'', Str ''SNP'', Num 1, Str ''LUAD'',
               Str ''TCGA-02-0033''],
              [Str ''JAKMIP3'', Str ''10'', Str ''Silent'', Str ''SNP'', Num 2, Str ''BRCA'',
               Str ''TCGA-02-0047'']]\<rparr>"

definition example_clinical_frame :: frame where
  "example_clinical_frame =
     \<lparr>columns = [''bcr_patient_barcode'', ''gender'', ''vital_status'', ''days_to_birth'',
                 ''days_to_death'', ''age_at_initial_pathologic_diagnosis'',
                 ''pathologic_stage'', ''height'', ''weight''],
      rows = [[Str ''TCGA-02-0003'', Str ''MALE'', Str ''Dead'', Num (- 18341), Num 144,
               Num 50, NaN, NaN, NaN],
              [Str ''TCGA-02-0047'', Str ''MALE'', Str ''Dead'', Num (- 28759), Num 448,
               Num 78, NaN, NaN, NaN],
              [Str ''TCGA-02-0099'', Str ''FEMALE'', Str ''Alive'', Num (- 16521), NaN,
               Num 45, NaN, NaN, NaN]]\<rparr>"

definition merged_columns :: "string list" where
  "merged_columns =
     [''Hugo_Symbol'', ''Chromosome'', ''Variant_Classification'', ''Variant_Type'', ''row'',
      ''cancer_type'', ''bcr_patient_barcode'', ''gender'', ''vital_status'',
      ''days_to_birth'', ''days_to_death'', ''age_at_initial_pathologic_diagnosis'',
      ''pathologic_stage'', ''height'', ''weight'']"

definition example_merged :: frame where
  "example_merged =
     \<lparr>columns = merged_columns,
      rows = [[Str ''TACC2'', Str ''10'', Str ''Missense_Mutation'', Str ''SNP'', Num 0,
               Str ''GBM'', Str ''TCGA-02-0003'', Str ''MALE'', Str ''Dead'', Num (- 18341),
               Num 144, Num 50, NaN, NaN, NaN],
              [Str ''JAKMIP3'', Str ''10'', Str ''Silent'', Str ''SNP'', Num 2, Str ''BRCA'',
               Str ''TCGA-02-0047'', Str ''MALE'', Str ''Dead'', Num (- 28759), Num 448,
               Num 78, NaN, NaN, NaN]]\<rparr>"


definition repeated_merged :: frame where
  "repeated_merged =
     \<lparr>columns = merged_columns,
      rows = [[Str ''TACC2'', Str ''10'', Str ''Missense_Mutation'', Str ''SNP'', Num 0,
               Str ''GBM'', Str ''TCGA-02-0003'', Str ''MALE'', Str ''Dead'', Num (- 18341),
               Num 144, Num 50, Str ''Stage I'', NaN, NaN],
              [Str ''TACC2'', Str ''10'', Str ''Missense_Mutation'', Str ''SNP'', Num 0,
               Str ''GBM'', Str ''TCGA-02-0003'', Str ''MALE'', Str ''Dead'', Num (- 18341),
               Num 144, Num 50, Str ''Stage II'', NaN, NaN],
              [Str ''PANX3'', Str ''11'', Str ''Silent'', Str ''SNP'', Num 1, Str ''GBM'',
               Str ''TCGA-02-0003'', Str ''MALE'', Str ''Dead'', Num (- 18341), Num 144,
               Num 50, Str ''Stage I'', NaN, NaN],
              [Str ''PANX3'', Str ''11'', Str ''Silent'', Str ''SNP'', Num 1, Str ''GBM'',
               Str ''TCGA-02-0003'', Str ''MALE'', Str ''Dead'', Num (- 18341), Num 144,
               Num 50, Str ''Stage II'', NaN, NaN],
              [Str ''JAKMIP3'', Str ''10'', Str ''Silent'', Str ''SNP'', Num 2, Str ''GBM'',
               Str ''TCGA-02-0003'', Str ''MALE'', Str ''Dead'', Num (- 18341), Num 144,
               Num 50, Str ''Stage I'', NaN, NaN],
              [Str ''JAKMIP3'', Str ''10'', Str ''Silent'', Str ''SNP'', Num 2, Str ''GBM'',
               Str ''TCGA-02-0003'', Str ''MALE'', Str ''Dead'', Num (- 18341), Num 144,
               Num 50, Str ''Stage II'', NaN, NaN]]\<rparr>"

text \<open>
  Worlds: an empty directory, a network that serves the two examples, and the directory
  after the fetch step.
\<close>

definition empty_world :: world where
  "empty_world = \<lparr>files = Map.empty, retrieved = []\<rparr>"

definition example_net :: "string \<Rightarrow> csv_file option" where
  "example_net url =
     (if url = ''http://api.gdc.cancer.gov/data/1c8cfe5f-e52d-41ba-94da-f15ea1337efc''
      then Some example_mutations
      else if url = ''http://api.gdc.cancer.gov/data/0fc78496-818b-4896-bd83-52db1f533c5c''
      then Some example_clinical
      else None)"

definition fetched_world :: world where
  "fetched_world =
     \<lparr>files = [''pancancer_mutations.maf.gz'' \<mapsto> example_mutations,
               ''pancancer_clinical.txt'' \<mapsto> example_clinical],
      retrieved = [''http://api.gdc.cancer.gov/data/1c8cfe5f-e52d-41ba-94da-f15ea1337efc'',
                   ''http://api.gdc.cancer.gov/data/0fc78496-818b-4896-bd83-52db1f533c5c'']\<rparr>"

section \<open>Basic facts\<close>

lemma then_do_Inr_iff: "then_do m f = Inr y \<longleftrightarrow> (\<exists>x. m = Inr x \<and> f x = Inr y)"
  by (cases m) (simp_all add: then_do_def)

lemma then_do_Inr: "then_do (Inr x) f = f x"
  by (simp add: then_do_def)


subsection \<open>Positions of columns\<close>

lemma index_of_None: "index_of x xs = None \<longleftrightarrow> x \<notin> set xs"
  by (induction xs) auto

lemma index_of_Some:
  "index_of x xs = Some i \<Longrightarrow> i < length xs \<and> xs ! i = x \<and> x \<notin> set (take i xs)"
proof (induction xs arbitrary: i)
  case Nil
  then show ?case by simp
next
  case (Cons y ys)
  show ?case
  proof (cases "x = y")
    case True
    with Cons.prems show ?thesis by simp
  next
    case False
    with Cons.prems obtain j where j: "index_of x ys = Some j" and i: "i = Suc j"
      by auto
    from Cons.IH [OF j] False i show ?thesis by simp
  qed
qed

lemma index_of_first:
  "i < length xs \<Longrightarrow> xs ! i \<notin> set (take i xs) \<Longrightarrow> index_of (xs ! i) xs = Some i"
proof (induction xs arbitrary: i)
  case Nil
  then show ?case by simp
next
  case (Cons y ys)
  show ?case
  proof (cases i)
    case 0
    then show ?thesis by simp
  next
    case (Suc j)
    with Cons.prems have "ys ! j \<noteq> y" and "j < length ys" and "ys ! j \<notin> set (take j ys)"
      by auto
    with Cons.IH [of j] Suc show ?thesis by simp
  qed
qed

lemma index_of_mem: "x \<in> set xs \<Longrightarrow> \<exists>i. index_of x xs = Some i"
  using index_of_None [of x xs] by (cases "index_of x xs") auto

lemma usecols_positions_set:
  "set (usecols_positions usecols hdr) =
     {i. i < length hdr \<and> hdr ! i \<in> set usecols \<and> hdr ! i \<notin> set (take i hdr)}"
  by (auto simp: usecols_positions_def)

lemma usecols_positions_index:
  "p \<in> set (usecols_positions usecols hdr) \<Longrightarrow> index_of (hdr ! p) hdr = Some p"
  by (simp add: usecols_positions_set index_of_first)

lemma usecols_positions_distinct: "distinct (map (\<lambda>i. hdr ! i) (usecols_positions usecols hdr))"
proof -
  have "distinct (usecols_positions usecols hdr)"
    by (simp add: usecols_positions_def)
  moreover have "inj_on (\<lambda>i. hdr ! i) (set (usecols_positions usecols hdr))"
  proof (rule inj_onI)
    fix p q
    assume p: "p \<in> set (usecols_positions usecols hdr)"
      and q: "q \<in> set (usecols_positions usecols hdr)"
      and eq: "hdr ! p = hdr ! q"
    have "Some p = index_of (hdr ! p) hdr"
      using usecols_positions_index [OF p] by (rule sym)
    also have "\<dots> = index_of (hdr ! q) hdr" by (simp only: eq)
    also have "\<dots> = Some q" by (rule usecols_positions_index [OF q])
    finally show "p = q" by (rule option.inject [THEN iffD1])
  qed
  ultimately show ?thesis unfolding distinct_map by (rule conjI)
qed

lemma usecols_positions_names:
  "set (map (\<lambda>i. hdr ! i) (usecols_positions usecols hdr)) = set usecols \<inter> set hdr"
proof
  show "set (map (\<lambda>i. hdr ! i) (usecols_positions usecols hdr)) \<subseteq> set usecols \<inter> set hdr"
    by (auto simp: usecols_positions_set)
next
  show "set usecols \<inter> set hdr \<subseteq> set (map (\<lambda>i. hdr ! i) (usecols_positions usecols hdr))"
  proof
    fix c assume "c \<in> set usecols \<inter> set hdr"
    then have c: "c \<in> set usecols" and "c \<in> set hdr" by auto
    then obtain i where "index_of c hdr = Some i" using index_of_mem by metis
    from index_of_Some [OF this] c have "i \<in> set (usecols_positions usecols hdr)" and "hdr ! i = c"
      by (simp_all add: usecols_positions_set)
    then show "c \<in> set (map (\<lambda>i. hdr ! i) (usecols_positions usecols hdr))" by force
  qed
qed

lemma index_of_distinct:
  assumes "distinct xs" and "k < length xs"
  shows "index_of (xs ! k) xs = Some k"
proof -
  from assms(2) have "xs = take k xs @ xs ! k # drop (Suc k) xs"
    by (rule id_take_nth_drop)
  with assms(1) have "distinct (take k xs @ xs ! k # drop (Suc k) xs)" by simp
  then have "xs ! k \<notin> set (take k xs)" by simp
  with assms(2) show ?thesis by (rule index_of_first)
qed

lemma index_of_append_old: "index_of c xs = Some i \<Longrightarrow> index_of c (xs @ ys) = Some i"
  by (induction xs arbitrary: i) (auto split: if_splits)

lemma index_of_append_new: "c \<notin> set xs \<Longrightarrow> index_of c (xs @ [c]) = Some (length xs)"
  by (induction xs) auto

subsection \<open>Values by column name\<close>

lemma cell_at_append: "i < length r \<Longrightarrow> cell_at (r @ ys) i = cell_at r i"
  by (simp add: cell_at_def nth_append)

lemma cell_at_last: "cell_at (r @ [v]) (length r) = v"
  by (simp add: cell_at_def)

lemma value_at_None: "c \<notin> set cols \<Longrightarrow> value_at cols r c = None"
  by (simp add: value_at_def index_of_None)

lemma value_at_append_old:
  assumes "c \<in> set cols" and "length r = length cols"
  shows "value_at (cols @ extra_cols) (r @ extra) c = value_at cols r c"
proof -
  from assms(1) obtain i where i: "index_of c cols = Some i" using index_of_mem by metis
  from index_of_Some [OF i] assms(2) have "i < length r" by simp
  with i show ?thesis by (simp add: value_at_def index_of_append_old cell_at_append)
qed

lemma value_at_append_new:
  assumes "c \<notin> set cols" and "length r = length cols"
  shows "value_at (cols @ [c]) (r @ [v]) c = Some v"
proof -
  from assms(1) have "index_of c (cols @ [c]) = Some (length r)"
    by (simp add: index_of_append_new assms(2))
  then show ?thesis by (simp add: value_at_def cell_at_last)
qed

subsection \<open>Removing a column\<close>

lemma remove_nth_nth:
  "t < length xs \<Longrightarrow> k < length xs - 1 \<Longrightarrow>
     remove_nth t xs ! k = xs ! (if k < t then k else Suc k)"
  by (auto simp: remove_nth_def nth_append min_def)

lemma length_remove_nth: "t < length xs \<Longrightarrow> length (remove_nth t xs) = length xs - 1"
  by (simp add: remove_nth_def)

lemma set_remove_nth: "set (remove_nth t xs) \<subseteq> set xs"
  by (auto simp: remove_nth_def dest: in_set_takeD in_set_dropD)

lemma distinct_remove_nth: "distinct xs \<Longrightarrow> distinct (remove_nth t xs)"
  by (simp add: remove_nth_def set_take_disj_set_drop_if_distinct)

lemma remove_nth_absent:
  assumes "distinct xs" and "t < length xs"
  shows "xs ! t \<notin> set (remove_nth t xs)"
proof -
  from assms(2) have "xs = take t xs @ xs ! t # drop (Suc t) xs" by (rule id_take_nth_drop)
  with assms(1) have "distinct (take t xs @ xs ! t # drop (Suc t) xs)" by simp
  then show ?thesis by (simp add: remove_nth_def)
qed

lemma remove_nth_kept:
  assumes "c \<in> set xs" and "t < length xs" and "c \<noteq> xs ! t"
  shows "c \<in> set (remove_nth t xs)"
proof -
  from assms(2) have "xs = take t xs @ xs ! t # drop (Suc t) xs" by (rule id_take_nth_drop)
  then have "set xs = set (take t xs) \<union> {xs ! t} \<union> set (drop (Suc t) xs)"
    by (metis Un_insert_right list.simps(15) set_append sup_bot.right_neutral Un_assoc insert_is_Un)
  with assms(1,3) show ?thesis by (auto simp: remove_nth_def)
qed

lemma value_at_remove_nth:
  assumes d: "distinct cols" and len: "length r = length cols" and t: "t < length cols"
    and c: "c \<noteq> cols ! t"
  shows "value_at (remove_nth t cols) (remove_nth t r) c = value_at cols r c"
proof (cases "c \<in> set cols")
  case False
  then have "c \<notin> set (remove_nth t cols)" using set_remove_nth by fastforce
  with False show ?thesis by (simp add: value_at_None)
next
  case True
  then have "c \<in> set (remove_nth t cols)" using t c by (rule remove_nth_kept)
  then obtain k where k: "k < length (remove_nth t cols)" and ck: "remove_nth t cols ! k = c"
    by (auto simp: in_set_conv_nth)
  from k t have k': "k < length cols - 1" by (simp add: length_remove_nth)
  let ?i = "if k < t then k else Suc k"
  from ck k' t have ci: "cols ! ?i = c" by (simp only: remove_nth_nth)
  from k' have i: "?i < length cols" by auto
  have 1: "index_of c (remove_nth t cols) = Some k"
    using index_of_distinct [OF distinct_remove_nth [OF d] k] ck by simp
  have 2: "index_of c cols = Some ?i"
    using index_of_distinct [OF d i] ci by simp
  from t len have tr: "t < length r" by simp
  from k' len have kr: "k < length r - 1" by simp
  have "cell_at (remove_nth t r) k = cell_at r ?i"
    using remove_nth_nth [OF tr kr] kr tr i len
    by (simp add: cell_at_def length_remove_nth)
  with 1 2 show ?thesis by (simp add: value_at_def)
qed

section \<open>Patient key derivation: the slice\<close>

lemma py_slice_prefix: "0 \<le> k \<Longrightarrow> py_slice xs 0 k = take (nat k) xs"
  by (simp add: py_slice_def slice_bound_def Let_def min_def)

text \<open>
  Claim C5. For every sample barcode string the derived patient barcode is the first 12
  characters of the sample barcode; for a barcode of 12 characters or more the result has
  exactly 12 characters and the barcode starts with it.
\<close>

theorem parsePatientBarcode_first_12:
  "parsePatientBarcode (Str s) = Inr (Str (take 12 s)) \<and>
   (12 \<le> length s \<longrightarrow>
      (\<exists>k rest. parsePatientBarcode (Str s) = Inr (Str k) \<and> length k = 12 \<and> s = k @ rest))"
proof -
  have a: "parsePatientBarcode (Str s) = Inr (Str (take 12 s))"
    using py_slice_prefix [of 12 s] by simp
  have "12 \<le> length s \<Longrightarrow> length (take 12 s) = 12 \<and> s = take 12 s @ drop 12 s"
    by simp
  with a show ?thesis by metis
qed

theorem parsePatientBarcode_first_12_witness:
  "parsePatientBarcode (Str ''TCGA-02-0003-01A-01D-1490-08'') = Inr (Str ''TCGA-02-0003'') \<and>
   12 \<le> length ''TCGA-02-0003-01A-01D-1490-08'' \<and>
   (\<exists>k rest. parsePatientBarcode (Str ''TCGA-02-0003-01A-01D-1490-08'') = Inr (Str k)
      \<and> length k = 12 \<and> ''TCGA-02-0003-01A-01D-1490-08'' = k @ rest)"
  using parsePatientBarcode_first_12 [of "''TCGA-02-0003-01A-01D-1490-08''"] by simp

text \<open>
  Claim C9. The derivation raises on no string: every string has a result, a string
  shorter than 12 characters is returned whole, and the empty string gives the empty
  string.
\<close>

theorem parsePatientBarcode_short_total:
  "(\<exists>k. parsePatientBarcode (Str s) = Inr (Str k)) \<and>
   (length s < 12 \<longrightarrow> parsePatientBarcode (Str s) = Inr (Str s)) \<and>
   parsePatientBarcode (Str []) = Inr (Str [])"
  using py_slice_prefix [of 12 s] py_slice_prefix [of 12 "[]::string"] by simp

theorem parsePatientBarcode_short_total_witness:
  "length ''TCGA-02'' < 12 \<and> parsePatientBarcode (Str ''TCGA-02'') = Inr (Str ''TCGA-02'')"
  using parsePatientBarcode_short_total [of "''TCGA-02''"] by simp

section \<open>The fetch step\<close>

lemma normpath_dot_slash: "normpath (CHR ''.'' # CHR ''/'' # p) = normpath p"
  by (subst normpath.simps) simp

lemma fetch_present: "isfile w filename \<Longrightarrow> fetch net filename url target w = Inr w"
  by (simp add: fetch_def)

lemma fetch_keeps_files:
  assumes "fetch net filename url target w = Inr w'" and "isfile w name"
  shows "isfile w' name"
  using assms
  by (auto simp: fetch_def urlretrieve_def isfile_def split: if_splits option.splits)

lemma fetch_creates_file:
  assumes "fetch net filename url (CHR ''.'' # CHR ''/'' # filename) w = Inr w'"
  shows "isfile w' filename"
  using assms
  by (auto simp: fetch_def urlretrieve_def isfile_def normpath_dot_slash
           split: if_splits option.splits)

lemma fetch_mutations_present:
  "isfile w ''pancancer_mutations.maf.gz'' \<Longrightarrow> fetch_mutations net w = Inr w"
  by (simp add: fetch_mutations_def fetch_present)

lemma fetch_clinical_present:
  "isfile w ''pancancer_clinical.txt'' \<Longrightarrow> fetch_clinical net w = Inr w"
  by (simp add: fetch_clinical_def fetch_present)

lemma fetch_step_present:
  assumes "isfile w ''pancancer_mutations.maf.gz''" and "isfile w ''pancancer_clinical.txt''"
  shows "fetch_step net w = Inr w"
  using assms
  by (simp add: fetch_step_def fetch_mutations_present fetch_clinical_present then_do_Inr)

lemma fetch_step_files:
  assumes "fetch_step net w = Inr w'"
  shows "isfile w' ''pancancer_mutations.maf.gz''" and "isfile w' ''pancancer_clinical.txt''"
proof -
  from assms obtain w1 where 1: "fetch_mutations net w = Inr w1"
    and 2: "fetch_clinical net w1 = Inr w'"
    by (auto simp: fetch_step_def then_do_Inr_iff)
  from 1 have "isfile w1 ''pancancer_mutations.maf.gz''"
    unfolding fetch_mutations_def by (rule fetch_creates_file)
  with 2 show "isfile w' ''pancancer_mutations.maf.gz''"
    unfolding fetch_clinical_def by (rule fetch_keeps_files)
  from 2 show "isfile w' ''pancancer_clinical.txt''"
    unfolding fetch_clinical_def by (rule fetch_creates_file)
qed

text \<open>
  Claim C6. The fetch step is idempotent. When a file is already there, its fetch cell
  returns the world as it was: no URL is retrieved and every file keeps its content,
  whatever the network would answer. After a fetch step that succeeded, a second fetch
  step changes nothing.
\<close>

theorem fetch_step_idempotent:
  "(isfile w ''pancancer_mutations.maf.gz'' \<longrightarrow>
      fetch_mutations net w = Inr w) \<and>
   (isfile w ''pancancer_clinical.txt'' \<longrightarrow>
      fetch_clinical net w = Inr w) \<and>
   (isfile w ''pancancer_mutations.maf.gz'' \<and> isfile w ''pancancer_clinical.txt'' \<longrightarrow>
      fetch_step net w = Inr w) \<and>
   (fetch_step net w = Inr w' \<longrightarrow> fetch_step net' w' = Inr w')"
  using fetch_mutations_present [of w net] fetch_clinical_present [of w net]
    fetch_step_present [of w net] fetch_step_files [of net w w'] fetch_step_present [of w' net']
  by blast

theorem fetch_step_idempotent_witness:
  "isfile fetched_world ''pancancer_mutations.maf.gz'' \<and>
   isfile fetched_world ''pancancer_clinical.txt'' \<and>
   fetch_mutations (\<lambda>url. None) fetched_world = Inr fetched_world \<and>
   fetch_clinical (\<lambda>url. None) fetched_world = Inr fetched_world \<and>
   fetch_step example_net empty_world = Inr fetched_world \<and>
   fetch_step (\<lambda>url. None) fetched_world = Inr fetched_world"
proof -
  have a: "isfile fetched_world ''pancancer_mutations.maf.gz''"
    by (simp add: isfile_def fetched_world_def normpath.simps)
  have b: "isfile fetched_world ''pancancer_clinical.txt''"
    by (simp add: isfile_def fetched_world_def normpath.simps)
  have n1: "normpath ''./pancancer_mutations.maf.gz'' = ''pancancer_mutations.maf.gz''"
    by (simp add: normpath.simps)
  have n2: "normpath ''./pancancer_clinical.txt'' = ''pancancer_clinical.txt''"
    by (simp add: normpath.simps)
  have n3: "normpath ''pancancer_mutations.maf.gz'' = ''pancancer_mutations.maf.gz''"
    by (simp add: normpath.simps)
  have n4: "normpath ''pancancer_clinical.txt'' = ''pancancer_clinical.txt''"
    by (simp add: normpath.simps)
  have c: "fetch_step example_net empty_world = Inr fetched_world"
    by (simp add: fetch_step_def fetch_mutations_def fetch_clinical_def fetch_def isfile_def
        urlretrieve_def then_do_def empty_world_def fetched_world_def example_net_def n1 n2 n3 n4)
  from fetch_step_idempotent [of fetched_world "\<lambda>url. None" fetched_world "\<lambda>url. None"]
    fetch_step_idempotent [of empty_world example_net fetched_world "\<lambda>url. None"] a b c
  show ?thesis by simp
qed

section \<open>The loaders and the positional join\<close>

lemma read_csv_usecols_Inr:
  "read_csv_usecols u f = Inr df \<longleftrightarrow>
     set u \<subseteq> set (header f) \<and>
     df = \<lparr>columns = map (\<lambda>i. header f ! i) (usecols_positions u (header f)),
           rows = map (\<lambda>l. map (cell_at l) (usecols_positions u (header f))) (lines f)\<rparr>"
  by (auto simp: read_csv_usecols_def Let_def)

lemma zip_rows_nth:
  assumes "length vs = length rs"
  shows "map (\<lambda>(r, v). r @ [v]) (zip rs vs) = map (\<lambda>i. rs ! i @ [vs ! i]) [0..<length rs]"
proof (rule nth_equalityI)
  show "length (map (\<lambda>(r, v). r @ [v]) (zip rs vs)) = length (map (\<lambda>i. rs ! i @ [vs ! i]) [0..<length rs])"
    using assms by simp
next
  fix i
  assume "i < length (map (\<lambda>(r, v). r @ [v]) (zip rs vs))"
  then have "i < length rs" and "i < length vs" using assms by simp_all
  then show "map (\<lambda>(r, v). r @ [v]) (zip rs vs) ! i = map (\<lambda>i. rs ! i @ [vs ! i]) [0..<length rs] ! i"
    by simp
qed

lemma assign_column_new:
  assumes "name \<notin> set (columns df)" and "length vals = length (rows df)"
  shows "assign_column name vals df =
           Inr \<lparr>columns = columns df @ [name],
                rows = map (\<lambda>i. rows df ! i @ [vals ! i]) [0..<length (rows df)]\<rparr>"
  using assms by (simp add: assign_column_def index_of_None [THEN iffD2] zip_rows_nth)

lemma length_arange: "length (arange n) = n"
  by (simp add: arange_def)

lemma arange_nth: "i < n \<Longrightarrow> arange n ! i = Num (int i)"
  by (simp add: arange_def)

lemma add_row_new:
  assumes "''row'' \<notin> set (columns df)"
  shows "add_row df =
           Inr \<lparr>columns = columns df @ [''row''],
                rows = map (\<lambda>i. rows df ! i @ [Num (int i)]) [0..<length (rows df)]\<rparr>"
  unfolding add_row_def
  by (simp add: assign_column_new [OF assms] length_arange arange_nth)

lemma usecols_columns_subset:
  "set (map (\<lambda>i. hdr ! i) (usecols_positions u hdr)) \<subseteq> set u"
  using usecols_positions_names [of hdr u] by blast

lemma row_not_requested: "''row'' \<notin> set mutation_usecols"
  by (simp add: mutation_usecols_def)

lemma load_mutations_Inr:
  assumes "load_mutations f = Inr m"
  shows "set mutation_usecols \<subseteq> set (header f)"
    and "columns m = map (\<lambda>i. header f ! i) (mutation_positions f) @ [''row'']"
    and "rows m = map (\<lambda>i. map (cell_at (lines f ! i)) (mutation_positions f) @ [Num (int i)])
                     [0..<length (lines f)]"
proof -
  from assms obtain df where df: "read_csv_usecols mutation_usecols f = Inr df"
    and m: "add_row df = Inr m"
    by (auto simp: load_mutations_def then_do_Inr_iff)
  from df show "set mutation_usecols \<subseteq> set (header f)"
    by (simp add: read_csv_usecols_Inr)
  from df have c: "columns df = map (\<lambda>i. header f ! i) (mutation_positions f)"
    and r: "rows df = map (\<lambda>l. map (cell_at l) (mutation_positions f)) (lines f)"
    by (simp_all add: read_csv_usecols_Inr mutation_positions_def)
  have "''row'' \<notin> set (columns df)"
    unfolding c mutation_positions_def
    using usecols_columns_subset [of "header f" mutation_usecols] row_not_requested by blast
  from add_row_new [OF this] m
  have m': "m = \<lparr>columns = columns df @ [''row''],
                 rows = map (\<lambda>i. rows df ! i @ [Num (int i)]) [0..<length (rows df)]\<rparr>"
    by simp
  from m' c show "columns m = map (\<lambda>i. header f ! i) (mutation_positions f) @ [''row'']"
    by simp
  from m' r show "rows m = map (\<lambda>i. map (cell_at (lines f ! i)) (mutation_positions f) @ [Num (int i)])
                     [0..<length (lines f)]"
    by simp
qed



lemma load_labels_Inr:
  assumes "load_labels f = Inr l"
  shows "columns l = [''cancer_type'', ''row'']"
    and "rows l = map (\<lambda>i. [cell_at (lines f ! i) 0, Num (int i)]) [0..<length (lines f)]"
proof -
  from assms obtain df df' where df: "read_csv f = Inr df"
    and df': "set_columns [''cancer_type''] df = Inr df'" and l: "add_row df' = Inr l"
    by (auto simp: load_labels_def then_do_Inr_iff)
  from df have r: "rows df = map (\<lambda>l. map (cell_at l) [0..<length (header f)]) (lines f)"
    and c: "columns df = header f"
    by (auto simp: read_csv_def split: if_splits)
  from df' have one: "length (columns df) = 1" and c': "columns df' = [''cancer_type'']"
    and r': "rows df' = rows df"
    by (auto simp: set_columns_def split: if_splits)
  from c one have w: "[0..<length (header f)] = [0]" by simp
  have "''row'' \<notin> set (columns df')" by (simp add: c')
  from add_row_new [OF this] l
  have l': "l = \<lparr>columns = columns df' @ [''row''],
                 rows = map (\<lambda>i. rows df' ! i @ [Num (int i)]) [0..<length (rows df')]\<rparr>"
    by simp
  from l' c' show "columns l = [''cancer_type'', ''row'']" by simp
  from l' r' r w show "rows l = map (\<lambda>i. [cell_at (lines f ! i) 0, Num (int i)]) [0..<length (lines f)]"
    by simp
qed

subsection \<open>The position pairs of a join\<close>

lemma concat_filter_product:
  "concat (map (\<lambda>i. map (\<lambda>j. (i, j)) (filter (P i) ys)) xs) =
     filter (\<lambda>(i, j). P i j) (List.product xs ys)"
  by (induction xs) (simp_all add: filter_map comp_def)

lemma join_indexers_product:
  "join_indexers lk rk =
     filter (\<lambda>(i, j). rk ! j = lk ! i) (List.product [0..<length lk] [0..<length rk])"
  unfolding join_indexers_def by (rule concat_filter_product)

lemma distinct_join_indexers: "distinct (join_indexers lk rk)"
  by (simp add: join_indexers_product distinct_product)

lemma set_join_indexers:
  "set (join_indexers lk rk) = {(i, j). i < length lk \<and> j < length rk \<and> lk ! i = rk ! j}"
  by (auto simp: join_indexers_product)

lemma filter_eq_upt: "filter (\<lambda>j. j = i) [0..<m] = (if i < m then [i] else [])"
  by (induction m) auto

lemma join_indexers_arange:
  "join_indexers (arange n) (arange m) = map (\<lambda>i. (i, i)) [0..<min n m]"
proof -
  have inner: "filter (\<lambda>j. arange m ! j = arange n ! i) [0..<m] = (if i < m then [i] else [])"
    if "i < n" for i
  proof -
    have "filter (\<lambda>j. arange m ! j = arange n ! i) [0..<m] = filter (\<lambda>j. j = i) [0..<m]"
      using that by (intro filter_cong) (auto simp: arange_nth)
    then show ?thesis by (simp only: filter_eq_upt)
  qed
  have "join_indexers (arange n) (arange m) =
          concat (map (\<lambda>i. if i < m then [(i, i)] else []) [0..<n])"
    unfolding join_indexers_def length_arange
    by (intro arg_cong [where f = concat] map_cong) (auto simp: inner)
  also have "\<dots> = map (\<lambda>i. (i, i)) [0..<min n m]"
  proof (induction n)
    case 0
    show ?case by simp
  next
    case (Suc k)
    show ?case
    proof (cases "k < m")
      case True
      then have "min (Suc k) m = Suc (min k m)" by simp
      with Suc True show ?thesis by simp
    next
      case False
      then have "min (Suc k) m = min k m" by simp
      with Suc False show ?thesis by simp
    qed
  qed
  finally show ?thesis .
qed

subsection \<open>The positional join\<close>

lemma merge_Inr:
  assumes "get_column a left = Inr lk" and "get_column b right = Inr rk"
  shows "merge left right a b =
           Inr \<lparr>columns = merge_columns a b (columns left) (columns right),
                rows = map (\<lambda>(i, j). merge_row (right_positions a b (columns right))
                                               (rows left ! i) (rows right ! j))
                           (join_indexers lk rk)\<rparr>"
  using assms by (simp add: merge_def then_do_Inr)

lemma merge_Inr_iff:
  "merge left right a b = Inr out \<longleftrightarrow>
     (\<exists>lk rk. get_column a left = Inr lk \<and> get_column b right = Inr rk \<and>
        out = \<lparr>columns = merge_columns a b (columns left) (columns right),
                rows = map (\<lambda>(i, j). merge_row (right_positions a b (columns right))
                                               (rows left ! i) (rows right ! j))
                           (join_indexers lk rk)\<rparr>)"
  by (auto simp: merge_def then_do_Inr_iff)

lemma merge_columns_disjoint:
  assumes "set lcols \<inter> set rcols \<subseteq> {k}"
  shows "merge_columns k k lcols rcols = lcols @ map (\<lambda>j. rcols ! j) (right_positions k k rcols)"
proof -
  have l: "c = k" if "c \<in> set lcols" and "c \<in> set rcols" for c
    using assms that by auto
  have "map (\<lambda>c. if c \<in> set lcols \<and> c \<in> set rcols \<and> c \<noteq> k then c @ ''_x'' else c) lcols = lcols"
    by (rule map_idI) (auto dest: l)
  moreover have "map (\<lambda>j. if rcols ! j \<in> set lcols \<and> rcols ! j \<in> set rcols \<and> rcols ! j \<noteq> k
                             then rcols ! j @ ''_y'' else rcols ! j) (right_positions k k rcols)
                   = map (\<lambda>j. rcols ! j) (right_positions k k rcols)"
    by (rule map_cong) (auto dest: l)
  ultimately show ?thesis
    unfolding merge_columns_def Let_def by simp
qed

lemma load_mutations_row_column:
  assumes "load_mutations f = Inr m"
  shows "get_column ''row'' m = Inr (arange (length (lines f)))"
proof -
  let ?cols = "map (\<lambda>i. header f ! i) (mutation_positions f)"
  have "set ?cols \<subseteq> set mutation_usecols"
    unfolding mutation_positions_def by (rule usecols_columns_subset)
  with row_not_requested have "''row'' \<notin> set ?cols" by blast
  then have i: "index_of ''row'' (?cols @ [''row'']) = Some (length ?cols)"
    by (rule index_of_append_new)
  have "cell_at (map (cell_at (lines f ! k)) (mutation_positions f) @ [Num (int k)]) (length ?cols)
          = Num (int k)" for k
    using cell_at_last [of "map (cell_at (lines f ! k)) (mutation_positions f)"] by simp
  with i show ?thesis
    by (simp add: get_column_def load_mutations_Inr [OF assms] arange_def comp_def)
qed

lemma load_labels_row_column:
  assumes "load_labels f = Inr l"
  shows "get_column ''row'' l = Inr (arange (length (lines f)))"
  by (simp add: get_column_def load_labels_Inr [OF assms] arange_def comp_def cell_at_def)

lemma cancer_type_not_requested: "''cancer_type'' \<notin> set mutation_usecols"
  by (simp add: mutation_usecols_def)

lemma positional_join_Inr:
  assumes m: "load_mutations mf = Inr m" and l: "load_labels lf = Inr l"
  shows "positional_join m l =
           Inr \<lparr>columns = columns m @ [''cancer_type''],
                rows = map (\<lambda>i. rows m ! i @ [cell_at (rows l ! i) 0])
                           [0..<min (length (lines mf)) (length (lines lf))]\<rparr>"
proof -
  let ?cols = "map (\<lambda>i. header mf ! i) (mutation_positions mf)"
  have "set ?cols \<subseteq> set mutation_usecols"
    unfolding mutation_positions_def by (rule usecols_columns_subset)
  with cancer_type_not_requested have ct: "''cancer_type'' \<notin> set ?cols" by blast
  have rp: "right_positions ''row'' ''row'' (columns l) = [0]"
    by (simp add: right_positions_def load_labels_Inr [OF l])
  have "set (columns m) \<inter> set (columns l) \<subseteq> {''row''}"
    using ct by (auto simp: load_labels_Inr [OF l] load_mutations_Inr(2) [OF m])
  then have "merge_columns ''row'' ''row'' (columns m) (columns l) =
               columns m @ map (\<lambda>j. columns l ! j) (right_positions ''row'' ''row'' (columns l))"
    by (rule merge_columns_disjoint)
  then have cols: "merge_columns ''row'' ''row'' (columns m) (columns l) = columns m @ [''cancer_type'']"
    unfolding rp by (simp add: load_labels_Inr [OF l])
  have "positional_join m l =
          Inr \<lparr>columns = merge_columns ''row'' ''row'' (columns m) (columns l),
               rows = map (\<lambda>(i, j). merge_row (right_positions ''row'' ''row'' (columns l))
                                              (rows m ! i) (rows l ! j))
                          (join_indexers (arange (length (lines mf))) (arange (length (lines lf))))\<rparr>"
    unfolding positional_join_def
    using load_mutations_row_column [OF m] load_labels_row_column [OF l] by (rule merge_Inr)
  then show ?thesis
    by (simp add: rp cols join_indexers_arange merge_row_def comp_def)
qed

text \<open>
  Claim C1. For a mutation table of N rows and a label table of M rows, both loaded by the
  notebook, the row index of either table counts its rows from 0, the join on the row index
  matches position i with position i for exactly the i below min N M, and the joined frame
  has, for these i in order and for no other pair, the mutation row i followed by the
  label of label row i.
\<close>

theorem positional_join_pairs:
  assumes "load_mutations mf = Inr m" and "load_labels lf = Inr l"
  shows "length (rows m) = length (lines mf) \<and> length (rows l) = length (lines lf) \<and>
         get_column ''row'' m = Inr (arange (length (rows m))) \<and>
         get_column ''row'' l = Inr (arange (length (rows l))) \<and>
         columns l = [''cancer_type'', ''row''] \<and>
         join_indexers (arange (length (rows m))) (arange (length (rows l))) =
           map (\<lambda>i. (i, i)) [0..<min (length (rows m)) (length (rows l))] \<and>
         (\<exists>j. positional_join m l = Inr j \<and>
              columns j = columns m @ [''cancer_type''] \<and>
              rows j = map (\<lambda>i. rows m ! i @ [cell_at (rows l ! i) 0])
                           [0..<min (length (rows m)) (length (rows l))])"
proof -
  have n: "length (rows m) = length (lines mf)"
    by (simp add: load_mutations_Inr(3) [OF assms(1)])
  have k: "length (rows l) = length (lines lf)"
    by (simp add: load_labels_Inr(2) [OF assms(2)])
  show ?thesis
    unfolding n k
    using load_mutations_row_column [OF assms(1)] load_labels_row_column [OF assms(2)]
      load_labels_Inr(1) [OF assms(2)] positional_join_Inr [OF assms]
    by (simp add: join_indexers_arange)
qed

theorem positional_join_pairs_witness:
  "load_mutations example_mutations = Inr example_mutation_frame \<and>
   load_labels example_labels = Inr example_label_frame \<and>
   join_indexers (arange 3) (arange 3) = [(0, 0), (1, 1), (2, 2)] \<and>
   (\<exists>j. positional_join example_mutation_frame example_label_frame = Inr j \<and>
        rows j = [[Str ''TACC2'', Str ''10'', Str ''Missense_Mutation'', Str ''SNP'',
                   Str ''TCGA-02-0003-01A-01D-1490-08'', Num 0, Str ''GBM''],
                  [Str ''PANX3'', Str ''11'', Str ''Silent'', Str ''SNP'',
                   Str ''TCGA-02-0033-01A-01D-1490-08'', Num 1, Str ''LUAD''],
                  [Str ''JAKMIP3'', Str ''10'', Str ''Silent'', Str ''SNP'',
                   Str ''TCGA-02-0047-01A-01D-1490-08'', Num 2, Str ''BRCA'']])"
proof -
  have m: "load_mutations example_mutations = Inr example_mutation_frame" by code_simp
  have l: "load_labels example_labels = Inr example_label_frame" by code_simp
  have i: "join_indexers (arange 3) (arange 3) = [(0, 0), (1, 1), (2, 2)]" by code_simp
  from positional_join_pairs [OF m l] obtain j
    where j: "positional_join example_mutation_frame example_label_frame = Inr j"
      and r: "rows j = map (\<lambda>i. rows example_mutation_frame ! i @
                                   [cell_at (rows example_label_frame ! i) 0])
                         [0..<min (length (rows example_mutation_frame))
                                  (length (rows example_label_frame))]"
    by blast
  have "map (\<lambda>i. rows example_mutation_frame ! i @ [cell_at (rows example_label_frame ! i) 0])
            [0..<min (length (rows example_mutation_frame)) (length (rows example_label_frame))] =
        [[Str ''TACC2'', Str ''10'', Str ''Missense_Mutation'', Str ''SNP'',
          Str ''TCGA-02-0003-01A-01D-1490-08'', Num 0, Str ''GBM''],
         [Str ''PANX3'', Str ''11'', Str ''Silent'', Str ''SNP'',
          Str ''TCGA-02-0033-01A-01D-1490-08'', Num 1, Str ''LUAD''],
         [Str ''JAKMIP3'', Str ''10'', Str ''Silent'', Str ''SNP'',
          Str ''TCGA-02-0047-01A-01D-1490-08'', Num 2, Str ''BRCA'']]"
    by code_simp
  with r have "rows j = [[Str ''TACC2'', Str ''10'', Str ''Missense_Mutation'', Str ''SNP'',
                   Str ''TCGA-02-0003-01A-01D-1490-08'', Num 0, Str ''GBM''],
                  [Str ''PANX3'', Str ''11'', Str ''Silent'', Str ''SNP'',
                   Str ''TCGA-02-0033-01A-01D-1490-08'', Num 1, Str ''LUAD''],
                  [Str ''JAKMIP3'', Str ''10'', Str ''Silent'', Str ''SNP'',
                   Str ''TCGA-02-0047-01A-01D-1490-08'', Num 2, Str ''BRCA'']]"
    by (rule trans)
  with m l i j show ?thesis by blast
qed





section \<open>The columns of the mutation loader\<close>










section \<open>Key derivation on the frame and the key join\<close>

lemma apply_each_Inr:
  "apply_each f xs = Inr ys \<Longrightarrow>
     length ys = length xs \<and> (\<forall>i < length xs. f (xs ! i) = Inr (ys ! i))"
proof (induction xs arbitrary: ys)
  case Nil
  then show ?case by simp
next
  case (Cons v vs)
  from Cons.prems obtain y ys' where y: "f v = Inr y" and ys': "apply_each f vs = Inr ys'"
    and ys: "ys = y # ys'"
    by (auto split: sum.splits)
  from Cons.IH [OF ys'] y ys show ?case
    by (auto simp: nth_Cons split: nat.splits)
qed

lemma parsePatientBarcode_Inr:
  "parsePatientBarcode v = Inr k \<Longrightarrow> \<exists>s. v = Str s \<and> k = Str (take 12 s)"
  using py_slice_prefix [of 12] by (cases v) auto

text \<open>The frame after the positional join, in terms of the two files.\<close>

lemma positional_join_rows:
  assumes m: "load_mutations mf = Inr m" and l: "load_labels lf = Inr l"
    and pj: "positional_join m l = Inr pj"
  shows "columns pj = map (\<lambda>i. header mf ! i) (mutation_positions mf) @ [''row'', ''cancer_type'']"
    and "rows pj = map (\<lambda>i. map (cell_at (lines mf ! i)) (mutation_positions mf) @
                             [Num (int i), cell_at (lines lf ! i) 0])
                      [0..<min (length (lines mf)) (length (lines lf))]"
proof -
  from positional_join_Inr [OF m l] pj
  have e: "pj = \<lparr>columns = columns m @ [''cancer_type''],
                 rows = map (\<lambda>i. rows m ! i @ [cell_at (rows l ! i) 0])
                            [0..<min (length (lines mf)) (length (lines lf))]\<rparr>"
    by simp
  from e show "columns pj = map (\<lambda>i. header mf ! i) (mutation_positions mf) @ [''row'', ''cancer_type'']"
    by (simp add: load_mutations_Inr(2) [OF m])
  from e show "rows pj = map (\<lambda>i. map (cell_at (lines mf ! i)) (mutation_positions mf) @
                             [Num (int i), cell_at (lines lf ! i) 0])
                      [0..<min (length (lines mf)) (length (lines lf))]"
    by (simp add: load_mutations_Inr(3) [OF m] load_labels_Inr(2) [OF l] cell_at_def)
qed

lemma mutation_columns_set:
  assumes "set mutation_usecols \<subseteq> set (header mf)"
  shows "set (map (\<lambda>i. header mf ! i) (mutation_positions mf)) = set mutation_usecols"
  unfolding mutation_positions_def
  using usecols_positions_names [of "header mf" mutation_usecols] assms by blast

lemma mutation_columns_distinct: "distinct (map (\<lambda>i. header mf ! i) (mutation_positions mf))"
  unfolding mutation_positions_def by (rule usecols_positions_distinct)


subsection \<open>The key derivation cell\<close>

lemma get_column_Inr:
  "get_column name df = Inr vs \<longleftrightarrow>
     (\<exists>t. index_of name (columns df) = Some t \<and> vs = map (\<lambda>r. cell_at r t) (rows df))"
  by (auto simp: get_column_def split: option.splits)

lemma drop_column_Inr:
  "index_of name (columns df) = Some t \<Longrightarrow>
     drop_column name df = Inr \<lparr>columns = remove_nth t (columns df),
                                 rows = map (remove_nth t) (rows df)\<rparr>"
  by (simp add: drop_column_def)

lemma derive_patient_key_Inr:
  assumes d: "derive_patient_key pj = Inr ml"
    and new: "''bcr_patient_barcode'' \<notin> set (columns pj)"
  obtains t keys where "index_of ''Tumor_Sample_Barcode'' (columns pj) = Some t"
    and "apply_each parsePatientBarcode (map (\<lambda>r. cell_at r t) (rows pj)) = Inr keys"
    and "columns ml = remove_nth t (columns pj @ [''bcr_patient_barcode''])"
    and "rows ml = map (\<lambda>i. remove_nth t (rows pj ! i @ [keys ! i])) [0..<length (rows pj)]"
proof -
  from d obtain barcodes keys df
    where b: "get_column ''Tumor_Sample_Barcode'' pj = Inr barcodes"
      and k: "apply_each parsePatientBarcode barcodes = Inr keys"
      and a: "assign_column ''bcr_patient_barcode'' keys pj = Inr df"
      and dr: "drop_column ''Tumor_Sample_Barcode'' df = Inr ml"
    unfolding derive_patient_key_def then_do_Inr_iff by blast
  from b obtain t where t: "index_of ''Tumor_Sample_Barcode'' (columns pj) = Some t"
    and bs: "barcodes = map (\<lambda>r. cell_at r t) (rows pj)"
    unfolding get_column_Inr by blast
  from apply_each_Inr [OF k] bs have len: "length keys = length (rows pj)" by simp
  from assign_column_new [OF new len] a
  have df: "df = \<lparr>columns = columns pj @ [''bcr_patient_barcode''],
                   rows = map (\<lambda>i. rows pj ! i @ [keys ! i]) [0..<length (rows pj)]\<rparr>"
    by simp
  from t have "index_of ''Tumor_Sample_Barcode'' (columns df) = Some t"
    by (simp add: df index_of_append_old)
  from drop_column_Inr [OF this] dr
  have ml: "ml = \<lparr>columns = remove_nth t (columns df), rows = map (remove_nth t) (rows df)\<rparr>"
    by simp
  show thesis
  proof (rule that [OF t])
    from k bs show "apply_each parsePatientBarcode (map (\<lambda>r. cell_at r t) (rows pj)) = Inr keys"
      by simp
    from ml df show "columns ml = remove_nth t (columns pj @ [''bcr_patient_barcode''])"
      by simp
    from ml df show "rows ml = map (\<lambda>i. remove_nth t (rows pj ! i @ [keys ! i])) [0..<length (rows pj)]"
      by simp
  qed
qed

lemma derive_patient_key_values:
  assumes d: "derive_patient_key pj = Inr ml"
    and new: "''bcr_patient_barcode'' \<notin> set (columns pj)"
    and dist: "distinct (columns pj)"
    and rect: "\<forall>r \<in> set (rows pj). length r = length (columns pj)"
  shows "length (rows ml) = length (rows pj)"
    and "distinct (columns ml)"
    and "''Tumor_Sample_Barcode'' \<notin> set (columns ml)"
    and "''bcr_patient_barcode'' \<in> set (columns ml)"
    and "set (columns ml) \<subseteq> insert ''bcr_patient_barcode'' (set (columns pj))"
    and "\<forall>i < length (rows pj). length (rows ml ! i) = length (columns ml)"
    and "\<forall>i < length (rows pj). \<forall>c. c \<in> set (columns pj) \<and> c \<noteq> ''Tumor_Sample_Barcode'' \<longrightarrow>
           value_at (columns ml) (rows ml ! i) c = value_at (columns pj) (rows pj ! i) c"
    and "\<forall>i < length (rows pj). \<exists>s.
           value_at (columns pj) (rows pj ! i) ''Tumor_Sample_Barcode'' = Some (Str s) \<and>
           value_at (columns ml) (rows ml ! i) ''bcr_patient_barcode'' = Some (Str (take 12 s))"
proof -
  let ?tsb = "''Tumor_Sample_Barcode''" and ?bcr = "''bcr_patient_barcode''"
  from d new obtain t keys where t: "index_of ?tsb (columns pj) = Some t"
    and k: "apply_each parsePatientBarcode (map (\<lambda>r. cell_at r t) (rows pj)) = Inr keys"
    and c: "columns ml = remove_nth t (columns pj @ [?bcr])"
    and r: "rows ml = map (\<lambda>i. remove_nth t (rows pj ! i @ [keys ! i])) [0..<length (rows pj)]"
    by (rule derive_patient_key_Inr)
  let ?cols = "columns pj @ [?bcr]"
  from index_of_Some [OF t] have tl: "t < length (columns pj)" and tc: "columns pj ! t = ?tsb"
    by simp_all
  from tl have tl': "t < length ?cols" by simp
  from tl tc have tc': "?cols ! t = ?tsb" by (simp add: nth_append)
  from dist new have dist': "distinct ?cols" by simp
  have ne: "?bcr \<noteq> ?tsb" by simp
  show "length (rows ml) = length (rows pj)" by (simp add: r)
  show dm: "distinct (columns ml)" unfolding c using dist' by (rule distinct_remove_nth)
  have "?cols ! t \<notin> set (remove_nth t ?cols)" using dist' tl' by (rule remove_nth_absent)
  then show "?tsb \<notin> set (columns ml)" unfolding c tc' .
  have "?bcr \<in> set (remove_nth t ?cols)"
  proof (rule remove_nth_kept)
    show "?bcr \<in> set ?cols" by simp
    show "t < length ?cols" by (rule tl')
    show "?bcr \<noteq> ?cols ! t" unfolding tc' by (rule ne)
  qed
  then show bm: "?bcr \<in> set (columns ml)" unfolding c .
  from set_remove_nth [of t ?cols] show "set (columns ml) \<subseteq> insert ?bcr (set (columns pj))"
    by (auto simp: c)
  have wid: "length (rows pj ! i) = length (columns pj)" if "i < length (rows pj)" for i
    using rect that by simp
  show "\<forall>i < length (rows pj). length (rows ml ! i) = length (columns ml)"
    using tl wid by (simp add: r c length_remove_nth)
  have old: "value_at (columns ml) (rows ml ! i) x = value_at (columns pj) (rows pj ! i) x"
    if i: "i < length (rows pj)" and x: "x \<in> set (columns pj)" and xt: "x \<noteq> ?tsb" for i x
  proof -
    have "value_at (remove_nth t ?cols) (remove_nth t (rows pj ! i @ [keys ! i])) x =
            value_at ?cols (rows pj ! i @ [keys ! i]) x"
      using dist' _ tl'
    proof (rule value_at_remove_nth)
      show "length (rows pj ! i @ [keys ! i]) = length ?cols" using wid [OF i] by simp
      show "x \<noteq> ?cols ! t" unfolding tc' by (rule xt)
    qed
    also have "\<dots> = value_at (columns pj) (rows pj ! i) x"
      using x wid [OF i] by (rule value_at_append_old)
    finally show ?thesis using i by (simp add: r c)
  qed
  then show "\<forall>i < length (rows pj). \<forall>c. c \<in> set (columns pj) \<and> c \<noteq> ?tsb \<longrightarrow>
           value_at (columns ml) (rows ml ! i) c = value_at (columns pj) (rows pj ! i) c"
    by blast
  have key: "\<exists>s. value_at (columns pj) (rows pj ! i) ?tsb = Some (Str s) \<and>
                 value_at (columns ml) (rows ml ! i) ?bcr = Some (Str (take 12 s))"
    if i: "i < length (rows pj)" for i
  proof -
    from apply_each_Inr [OF k] i
    have "parsePatientBarcode (cell_at (rows pj ! i) t) = Inr (keys ! i)" by simp
    then obtain s where s: "cell_at (rows pj ! i) t = Str s" and ks: "keys ! i = Str (take 12 s)"
      using parsePatientBarcode_Inr by blast
    from t s have 1: "value_at (columns pj) (rows pj ! i) ?tsb = Some (Str s)"
      by (simp add: value_at_def)
    have "value_at (remove_nth t ?cols) (remove_nth t (rows pj ! i @ [keys ! i])) ?bcr =
            value_at ?cols (rows pj ! i @ [keys ! i]) ?bcr"
      using dist' _ tl'
    proof (rule value_at_remove_nth)
      show "length (rows pj ! i @ [keys ! i]) = length ?cols" using wid [OF i] by simp
      show "?bcr \<noteq> ?cols ! t" unfolding tc' by (rule ne)
    qed
    also have "\<dots> = Some (keys ! i)"
      using new wid [OF i] by (rule value_at_append_new)
    finally have "value_at (columns ml) (rows ml ! i) ?bcr = Some (Str (take 12 s))"
      using i ks by (simp add: r c)
    with 1 show ?thesis by blast
  qed
  then show "\<forall>i < length (rows pj). \<exists>s.
           value_at (columns pj) (rows pj ! i) ?tsb = Some (Str s) \<and>
           value_at (columns ml) (rows ml ! i) ?bcr = Some (Str (take 12 s))"
    by blast
qed

subsection \<open>Counting the joined rows\<close>

lemma foldr_max_ge: "x \<in> set xs \<Longrightarrow> f x \<le> foldr max (map f xs) (0::nat)"
  by (induction xs) (auto simp: max_def)

lemma count_le_max_duplication: "count_list ks k \<le> max_duplication ks"
proof (cases "k \<in> set ks")
  case True
  then show ?thesis unfolding max_duplication_def by (rule foldr_max_ge)
next
  case False
  then show ?thesis by (simp add: count_list_0_iff [THEN iffD2])
qed

lemma count_list_distinct: "distinct ks \<Longrightarrow> count_list ks x \<le> 1"
  by (induction ks) (auto simp: count_list_0_iff)

lemma foldr_max_le: "(\<And>x. x \<in> set xs \<Longrightarrow> f x \<le> b) \<Longrightarrow> foldr max (map f xs) (0::nat) \<le> b"
  by (induction xs) auto

lemma max_duplication_distinct: "distinct ks \<Longrightarrow> max_duplication ks \<le> 1"
  unfolding max_duplication_def by (rule foldr_max_le) (rule count_list_distinct)

lemma count_positions: "length (filter (\<lambda>j. xs ! j = v) [0..<length xs]) = count_list xs v"
proof (induction xs rule: rev_induct)
  case Nil
  show ?case by simp
next
  case (snoc x xs)
  have "filter (\<lambda>j. (xs @ [x]) ! j = v) [0..<length xs] = filter (\<lambda>j. xs ! j = v) [0..<length xs]"
    by (rule filter_cong) (auto simp: nth_append)
  with snoc show ?case by simp
qed

lemma sum_list_bounded:
  "(\<And>x. x \<in> set xs \<Longrightarrow> f x \<le> (b::nat)) \<Longrightarrow> sum_list (map f xs) \<le> length xs * b"
  by (induction xs) (auto intro: add_mono)

lemma length_join_indexers:
  "length (join_indexers lk rk) = sum_list (map (\<lambda>i. count_list rk (lk ! i)) [0..<length lk])"
  by (simp add: join_indexers_def length_concat comp_def count_positions)

lemma length_join_indexers_le:
  "length (join_indexers lk rk) \<le> length lk * max_duplication rk"
proof -
  have "sum_list (map (\<lambda>i. count_list rk (lk ! i)) [0..<length lk])
          \<le> length [0..<length lk] * max_duplication rk"
    by (rule sum_list_bounded) (rule count_le_max_duplication)
  then show ?thesis by (simp add: length_join_indexers)
qed

lemma length_join_indexers_swap:
  "length (join_indexers lk rk) = length (join_indexers rk lk)"
proof -
  have "set (join_indexers rk lk) = prod.swap ` set (join_indexers lk rk)"
    by (auto simp: set_join_indexers image_iff)
  then have "card (set (join_indexers rk lk)) = card (set (join_indexers lk rk))"
    by (simp add: card_image)
  then show ?thesis
    by (simp add: distinct_card [OF distinct_join_indexers])
qed

lemma length_join_indexers_le_right:
  "length (join_indexers lk rk) \<le> length rk * max_duplication lk"
  using length_join_indexers_le [of rk lk] by (simp add: length_join_indexers_swap [of lk rk])

subsection \<open>The key join\<close>

lemma get_column_length: "get_column name df = Inr vs \<Longrightarrow> length vs = length (rows df)"
  by (auto simp: get_column_Inr)

lemma get_column_value:
  "get_column name df = Inr vs \<Longrightarrow> i < length (rows df) \<Longrightarrow>
     value_at (columns df) (rows df ! i) name = Some (vs ! i)"
  by (auto simp: get_column_Inr value_at_def)

lemma build_merged_stages:
  assumes "build_merged mf lf cf = Inr out"
  obtains m l pj clinical ml where "load_mutations mf = Inr m" and "load_labels lf = Inr l"
    and "positional_join m l = Inr pj" and "load_clinical cf = Inr clinical"
    and "derive_patient_key pj = Inr ml" and "key_join ml clinical = Inr out"
  using assms unfolding build_merged_def then_do_Inr_iff by blast

text \<open>
  Claim C3. The key join is an inner join on the patient barcode. The rows of the output
  are the pairs of a mutation-label row and a clinical row taken along a list of position
  pairs; the list has no repetition and holds exactly the pairs of positions whose patient
  barcodes are equal. So every matching pair gives one output row, a mutation-label row
  whose barcode no clinical row has gives none, and a clinical row whose barcode no
  mutation-label row has gives none.
\<close>

theorem key_join_inner:
  assumes "key_join ml clinical = Inr out"
  shows "\<exists>lk rk.
           get_column ''bcr_patient_barcode'' ml = Inr lk \<and>
           get_column ''bcr_patient_barcode'' clinical = Inr rk \<and>
           length lk = length (rows ml) \<and> length rk = length (rows clinical) \<and>
           (\<forall>i < length (rows ml).
              value_at (columns ml) (rows ml ! i) ''bcr_patient_barcode'' = Some (lk ! i)) \<and>
           (\<forall>j < length (rows clinical).
              value_at (columns clinical) (rows clinical ! j) ''bcr_patient_barcode'' =
                Some (rk ! j)) \<and>
           rows out =
             map (\<lambda>(i, j). merge_row (right_positions ''bcr_patient_barcode''
                                         ''bcr_patient_barcode'' (columns clinical))
                                      (rows ml ! i) (rows clinical ! j))
                 (join_indexers lk rk) \<and>
           distinct (join_indexers lk rk) \<and>
           set (join_indexers lk rk) =
             {(i, j). i < length (rows ml) \<and> j < length (rows clinical) \<and> lk ! i = rk ! j} \<and>
           (\<forall>i < length (rows ml). lk ! i \<notin> set rk \<longrightarrow>
              (\<forall>j. (i, j) \<notin> set (join_indexers lk rk))) \<and>
           (\<forall>j < length (rows clinical). rk ! j \<notin> set lk \<longrightarrow>
              (\<forall>i. (i, j) \<notin> set (join_indexers lk rk)))"
proof -
  from assms obtain lk rk
    where lk: "get_column ''bcr_patient_barcode'' ml = Inr lk"
      and rk: "get_column ''bcr_patient_barcode'' clinical = Inr rk"
      and out: "out = \<lparr>columns = merge_columns ''bcr_patient_barcode'' ''bcr_patient_barcode''
                                     (columns ml) (columns clinical),
                       rows = map (\<lambda>(i, j). merge_row (right_positions ''bcr_patient_barcode''
                                                  ''bcr_patient_barcode'' (columns clinical))
                                                (rows ml ! i) (rows clinical ! j))
                                  (join_indexers lk rk)\<rparr>"
    unfolding key_join_def merge_Inr_iff by blast
  note ll = get_column_length [OF lk] and lr = get_column_length [OF rk]
  have s: "set (join_indexers lk rk) =
             {(i, j). i < length (rows ml) \<and> j < length (rows clinical) \<and> lk ! i = rk ! j}"
    by (simp add: set_join_indexers ll lr)
  have a: "\<forall>i < length (rows ml). lk ! i \<notin> set rk \<longrightarrow> (\<forall>j. (i, j) \<notin> set (join_indexers lk rk))"
    unfolding s using lr by (auto simp: in_set_conv_nth)
  have b: "\<forall>j < length (rows clinical). rk ! j \<notin> set lk \<longrightarrow> (\<forall>i. (i, j) \<notin> set (join_indexers lk rk))"
    unfolding s using ll by (auto simp: in_set_conv_nth)
  from out have r: "rows out =
             map (\<lambda>(i, j). merge_row (right_positions ''bcr_patient_barcode''
                                         ''bcr_patient_barcode'' (columns clinical))
                                      (rows ml ! i) (rows clinical ! j))
                 (join_indexers lk rk)" by simp
  have vl: "\<forall>i < length (rows ml).
              value_at (columns ml) (rows ml ! i) ''bcr_patient_barcode'' = Some (lk ! i)"
    using get_column_value [OF lk] by blast
  have vr: "\<forall>j < length (rows clinical).
              value_at (columns clinical) (rows clinical ! j) ''bcr_patient_barcode'' =
                Some (rk ! j)"
    using get_column_value [OF rk] by blast
  from lk rk ll lr vl vr r distinct_join_indexers [of lk rk] s a b show ?thesis by blast
qed

theorem key_join_inner_witness:
  "key_join example_keyed_frame example_clinical_frame = Inr example_merged \<and>
   get_column ''bcr_patient_barcode'' example_keyed_frame =
     Inr [Str ''TCGA-02-0003'', Str ''TCGA-02-0033'', Str ''TCGA-02-0047''] \<and>
   get_column ''bcr_patient_barcode'' example_clinical_frame =
     Inr [Str ''TCGA-02-0003'', Str ''TCGA-02-0047'', Str ''TCGA-02-0099''] \<and>
   join_indexers [Str ''TCGA-02-0003'', Str ''TCGA-02-0033'', Str ''TCGA-02-0047'']
                 [Str ''TCGA-02-0003'', Str ''TCGA-02-0047'', Str ''TCGA-02-0099''] =
     [(0, 0), (2, 1)] \<and>
   (\<exists>lk rk. get_column ''bcr_patient_barcode'' example_keyed_frame = Inr lk \<and>
           get_column ''bcr_patient_barcode'' example_clinical_frame = Inr rk \<and>
           distinct (join_indexers lk rk) \<and>
           length (rows example_merged) = length (join_indexers lk rk))"
proof -
  have h: "key_join example_keyed_frame example_clinical_frame = Inr example_merged"
    by code_simp
  have l: "get_column ''bcr_patient_barcode'' example_keyed_frame =
             Inr [Str ''TCGA-02-0003'', Str ''TCGA-02-0033'', Str ''TCGA-02-0047'']"
    by code_simp
  have r: "get_column ''bcr_patient_barcode'' example_clinical_frame =
             Inr [Str ''TCGA-02-0003'', Str ''TCGA-02-0047'', Str ''TCGA-02-0099'']"
    by code_simp
  have i: "join_indexers [Str ''TCGA-02-0003'', Str ''TCGA-02-0033'', Str ''TCGA-02-0047'']
                 [Str ''TCGA-02-0003'', Str ''TCGA-02-0047'', Str ''TCGA-02-0099''] =
             [(0, 0), (2, 1)]"
    by code_simp
  from key_join_inner [OF h] obtain lk rk
    where "get_column ''bcr_patient_barcode'' example_keyed_frame = Inr lk"
      and "get_column ''bcr_patient_barcode'' example_clinical_frame = Inr rk"
      and "distinct (join_indexers lk rk)"
      and "rows example_merged =
             map (\<lambda>(i, j). merge_row (right_positions ''bcr_patient_barcode''
                                         ''bcr_patient_barcode'' (columns example_clinical_frame))
                                      (rows example_keyed_frame ! i)
                                      (rows example_clinical_frame ! j))
                 (join_indexers lk rk)"
    by blast
  moreover from this(4) have "length (rows example_merged) = length (join_indexers lk rk)"
    by simp
  ultimately have "\<exists>lk rk. get_column ''bcr_patient_barcode'' example_keyed_frame = Inr lk \<and>
           get_column ''bcr_patient_barcode'' example_clinical_frame = Inr rk \<and>
           distinct (join_indexers lk rk) \<and>
           length (rows example_merged) = length (join_indexers lk rk)"
    by blast
  with h l r i show ?thesis by blast
qed

lemma load_clinical_rows: "load_clinical cf = Inr clinical \<Longrightarrow> length (rows clinical) = length (lines cf)"
  by (auto simp: load_clinical_def read_csv_usecols_Inr)

lemma bcr_not_requested: "''bcr_patient_barcode'' \<notin> set mutation_usecols"
  by (simp add: mutation_usecols_def)

lemma positional_join_shape:
  assumes m: "load_mutations mf = Inr m" and l: "load_labels lf = Inr l"
    and pj: "positional_join m l = Inr pj"
  shows "''bcr_patient_barcode'' \<notin> set (columns pj)"
    and "distinct (columns pj)"
    and "\<forall>r \<in> set (rows pj). length r = length (columns pj)"
    and "length (rows pj) = min (length (lines mf)) (length (lines lf))"
    and "set (columns pj) = set mutation_usecols \<union> {''row'', ''cancer_type''}"
proof -
  note c = positional_join_rows(1) [OF m l pj] and r = positional_join_rows(2) [OF m l pj]
  note s = mutation_columns_set [OF load_mutations_Inr(1) [OF m]]
  from s bcr_not_requested show "''bcr_patient_barcode'' \<notin> set (columns pj)"
    unfolding c by auto
  from s row_not_requested cancer_type_not_requested mutation_columns_distinct [of mf]
  show "distinct (columns pj)" unfolding c by auto
  show "\<forall>r \<in> set (rows pj). length r = length (columns pj)" unfolding c r by auto
  show "length (rows pj) = min (length (lines mf)) (length (lines lf))" unfolding r by simp
  from s show "set (columns pj) = set mutation_usecols \<union> {''row'', ''cancer_type''}"
    unfolding c by auto
qed

text \<open>
  Claim C4 bounds the merged row count by the number of mutation rows, and by the number
  of clinical rows times the largest duplication of a barcode in the clinical table.
  Neither bound holds: three mutation lines of one patient and two clinical lines of that
  patient give six merged rows, more than three and more than two times two.
\<close>

theorem merged_row_count_counterexample:
  "build_merged repeated_mutations repeated_labels repeated_clinical = Inr repeated_merged \<and>
   then_do (load_clinical repeated_clinical) (get_column ''bcr_patient_barcode'') =
     Inr [Str ''TCGA-02-0003'', Str ''TCGA-02-0003''] \<and>
   length (rows repeated_merged) = 6 \<and>
   length (lines repeated_mutations) = 3 \<and>
   length (lines repeated_clinical) = 2 \<and>
   max_duplication [Str ''TCGA-02-0003'', Str ''TCGA-02-0003''] = 2 \<and>
   \<not> length (rows repeated_merged) \<le> length (lines repeated_mutations) \<and>
   \<not> length (rows repeated_merged) \<le>
       length (lines repeated_clinical) *
       max_duplication [Str ''TCGA-02-0003'', Str ''TCGA-02-0003'']"
  by code_simp

text \<open>
  Claim C4, amended. For every input on which the table building succeeds, the number of
  merged rows is at most the number of mutation rows times the largest duplication of a
  patient barcode in the clinical table (so at most the number of mutation rows when the
  clinical barcodes are distinct), and at most the number of clinical rows times the
  largest duplication of a derived patient barcode among the mutation-label rows.
\<close>

theorem merged_row_count:
  assumes "build_merged mf lf cf = Inr out"
  shows "\<exists>m l pj ml clinical lk rk.
           load_mutations mf = Inr m \<and> load_labels lf = Inr l \<and>
           positional_join m l = Inr pj \<and> derive_patient_key pj = Inr ml \<and>
           load_clinical cf = Inr clinical \<and> key_join ml clinical = Inr out \<and>
           get_column ''bcr_patient_barcode'' ml = Inr lk \<and>
           get_column ''bcr_patient_barcode'' clinical = Inr rk \<and>
           length lk \<le> length (lines mf) \<and> length rk = length (lines cf) \<and>
           length (rows out) \<le> length (lines mf) * max_duplication rk \<and>
           length (rows out) \<le> length (lines cf) * max_duplication lk \<and>
           (distinct rk \<longrightarrow> length (rows out) \<le> length (lines mf))"
proof -
  from assms obtain m l pj clinical ml where m: "load_mutations mf = Inr m"
    and l: "load_labels lf = Inr l" and pj: "positional_join m l = Inr pj"
    and c: "load_clinical cf = Inr clinical" and d: "derive_patient_key pj = Inr ml"
    and k: "key_join ml clinical = Inr out"
    by (rule build_merged_stages)
  from k obtain lk rk
    where lk: "get_column ''bcr_patient_barcode'' ml = Inr lk"
      and rk: "get_column ''bcr_patient_barcode'' clinical = Inr rk"
      and n: "length (rows out) = length (join_indexers lk rk)"
    unfolding key_join_def merge_Inr_iff by auto
  note sh = positional_join_shape [OF m l pj]
  from derive_patient_key_values(1) [OF d sh(1,2,3)] sh(4)
  have "length (rows ml) \<le> length (lines mf)" by simp
  with get_column_length [OF lk] have ll: "length lk \<le> length (lines mf)" by simp
  from get_column_length [OF rk] load_clinical_rows [OF c]
  have lr: "length rk = length (lines cf)" by simp
  have "length (rows out) \<le> length lk * max_duplication rk"
    unfolding n by (rule length_join_indexers_le)
  also have "\<dots> \<le> length (lines mf) * max_duplication rk"
    using ll by (rule mult_le_mono1)
  finally have b1: "length (rows out) \<le> length (lines mf) * max_duplication rk" .
  have "length (rows out) \<le> length rk * max_duplication lk"
    unfolding n by (rule length_join_indexers_le_right)
  then have b2: "length (rows out) \<le> length (lines cf) * max_duplication lk"
    by (simp only: lr)
  have b3: "length (rows out) \<le> length (lines mf)" if "distinct rk"
  proof -
    from that have "max_duplication rk \<le> 1" by (rule max_duplication_distinct)
    then have "length (lines mf) * max_duplication rk \<le> length (lines mf) * 1"
      by (rule mult_le_mono2)
    with b1 have "length (rows out) \<le> length (lines mf) * 1" by (rule le_trans)
    then show ?thesis by (simp only: mult_1_right)
  qed
  from m l pj d c k lk rk ll lr b1 b2 b3 show ?thesis by blast
qed

theorem merged_row_count_witness:
  "build_merged example_mutations example_labels example_clinical = Inr example_merged \<and>
   load_clinical example_clinical = Inr example_clinical_frame \<and>
   (\<exists>rk. get_column ''bcr_patient_barcode'' example_clinical_frame = Inr rk \<and>
         length (rows example_merged) \<le> length (lines example_mutations) * max_duplication rk)"
proof -
  have h: "build_merged example_mutations example_labels example_clinical = Inr example_merged"
    by code_simp
  have c: "load_clinical example_clinical = Inr example_clinical_frame" by code_simp
  from merged_row_count [OF h] obtain clinical rk
    where "load_clinical example_clinical = Inr clinical"
      and "get_column ''bcr_patient_barcode'' clinical = Inr rk"
      and "length (rows example_merged) \<le> length (lines example_mutations) * max_duplication rk"
    by blast
  with c have "\<exists>rk. get_column ''bcr_patient_barcode'' example_clinical_frame = Inr rk \<and>
         length (rows example_merged) \<le> length (lines example_mutations) * max_duplication rk"
    by auto
  with h c show ?thesis by blast
qed

subsection \<open>From the files to the merged rows\<close>








end
